theory Spec2Isabelle
  imports Complex_Main
begin

section \<open>Python text primitives used by \<open>clean_text\<close>\<close>

text \<open>
  A Python \<open>str\<close> is modelled as a \<open>string\<close> whose characters are the code points below
  256 (ASCII and Latin-1). Floats are modelled as \<open>real\<close>: rounding, infinities and NaN
  are not represented, and a missing value (pandas NaN / None) is \<open>None\<close> of an option type.
\<close>

definition code :: "char \<Rightarrow> nat" where
  "code c = of_char c"

definition is_lower :: "char \<Rightarrow> bool" where
  "is_lower c = (97 \<le> code c \<and> code c \<le> 122)"

definition is_upper :: "char \<Rightarrow> bool" where
  "is_upper c = (65 \<le> code c \<and> code c \<le> 90)"

definition is_digit :: "char \<Rightarrow> bool" where
  "is_digit c = (48 \<le> code c \<and> code c \<le> 57)"

text \<open>\<open>str.isspace\<close> / the regex class \<open>\s\<close> on code points below 256: tab, LF, VT, FF, CR,
  the separators 0x1C..0x1F, space, NEL (0x85) and the no-break space (0xA0).\<close>

definition is_space :: "char \<Rightarrow> bool" where
  "is_space c = ((9 \<le> code c \<and> code c \<le> 13) \<or> (28 \<le> code c \<and> code c \<le> 32)
                 \<or> code c = 133 \<or> code c = 160)"

text \<open>\<open>str.lower()\<close> on code points below 256: \<open>A..Z\<close> and the Latin-1 capitals
  0xC0..0xDE (without the multiplication sign 0xD7) move up by 32.\<close>

definition lower_char :: "char \<Rightarrow> char" where
  "lower_char c =
     (if is_upper c \<or> (192 \<le> code c \<and> code c \<le> 222 \<and> code c \<noteq> 215)
      then char_of (code c + 32) else c)"

definition lower :: "string \<Rightarrow> string" where
  "lower s = map lower_char s"

text \<open>\<open>re.sub(r'[^a-zA-Z0-9\s]', ' ', text)\<close>\<close>

definition keep_char :: "char \<Rightarrow> bool" where
  "keep_char c = (is_lower c \<or> is_upper c \<or> is_digit c \<or> is_space c)"

definition re_sub_special :: "string \<Rightarrow> string" where
  "re_sub_special s = map (\<lambda>c. if keep_char c then c else CHR '' '') s"

text \<open>\<open>text.split()\<close> without arguments: the maximal runs of non-whitespace characters.
  The first argument collects the current run in reverse.\<close>

fun split_acc :: "string \<Rightarrow> string \<Rightarrow> string list" where
  "split_acc acc [] = (if acc = [] then [] else [rev acc])"
| "split_acc acc (c # cs) =
     (if is_space c
      then (if acc = [] then split_acc [] cs else rev acc # split_acc [] cs)
      else split_acc (c # acc) cs)"

definition split :: "string \<Rightarrow> string list" where
  "split s = split_acc [] s"

text \<open>\<open>sep.join(words)\<close>\<close>

fun join :: "string \<Rightarrow> string list \<Rightarrow> string" where
  "join sep [] = []"
| "join sep [w] = w"
| "join sep (w # v # ws) = w @ sep @ join sep (v # ws)"

text \<open>\<open>clean_text\<close> (api.py, lines 25-39). The argument is a data-frame cell:
  \<open>None\<close> is NaN.\<close>

definition clean_text :: "string option \<Rightarrow> string" where
  "clean_text text =
     (case text of
        None \<Rightarrow> []
      | Some t \<Rightarrow>
          if t = [] then []
          else join '' '' (split (re_sub_special (lower t))))"

text \<open>Predicates used to state the properties of normalised text.\<close>

definition clean_char :: "char \<Rightarrow> bool" where
  "clean_char c = (is_lower c \<or> is_digit c \<or> c = CHR '' '')"

fun double_space :: "string \<Rightarrow> bool" where
  "double_space (a # b # cs) = ((a = CHR '' '' \<and> b = CHR '' '') \<or> double_space (b # cs))"
| "double_space _ = False"

section \<open>The catalog: data frames and their rows\<close>

text \<open>One line of \<open>data/product_info.csv\<close>. Text cells hold the text of the CSV field;
  numeric cells are already parsed, \<open>None\<close> for a field pandas reads as NaN.\<close>

record product_row =
  csv_product_id :: string
  csv_product_name :: string
  csv_brand_name :: string
  csv_primary_category :: string
  csv_secondary_category :: string
  csv_ingredients :: string
  csv_rating :: "real option"
  csv_reviews :: "real option"
  csv_price_usd :: "real option"

text \<open>One line of a \<open>data/reviews_*.csv\<close> file.\<close>

record review_row =
  rev_product_id :: string
  rev_rating :: "real option"
  rev_review_text :: string

text \<open>\<open>pd.read_csv\<close> (lines 53 and 68) with its default arguments turns a text field into
  NaN when the field is empty or is one of pandas' default NA markers.\<close>

definition na_values :: "string list" where
  "na_values = ['''', ''#N/A'', ''#N/A N/A'', ''#NA'', ''-1.#IND'', ''-1.#QNAN'', ''-NaN'',
     ''-nan'', ''1.#IND'', ''1.#QNAN'', ''<NA>'', ''N/A'', ''NA'', ''NULL'', ''NaN'', ''None'',
     ''n/a'', ''nan'', ''null'']"

definition read_cell :: "string \<Rightarrow> string option" where
  "read_cell s = (if s \<in> set na_values then None else Some s)"

definition fillna :: "'a \<Rightarrow> 'a option \<Rightarrow> 'a" where
  "fillna d v = (case v of None \<Rightarrow> d | Some x \<Rightarrow> x)"

text \<open>A row of \<open>products_df\<close> after lines 75-98: the cleaned columns and
  \<open>combined_features\<close>.\<close>

record product_base =
  product_id :: "string option"
  product_name :: string
  brand_name :: string
  primary_category :: string
  secondary_category :: string
  ingredients :: string
  rating :: real
  reviews :: real
  price_usd :: real
  product_name_clean :: string
  brand_name_clean :: string
  ingredients_clean :: string
  combined_features :: string

text \<open>A row of the final \<open>products_df\<close>, with the merged review statistics
  (the column \<open>rating_std\<close> is never read and is left out).\<close>

record product = product_base +
  avg_rating :: "real option"
  rating_count :: "nat option"
  review_count :: "nat option"
  final_rating :: real
  final_review_count :: real
  avg_sentiment :: real
  sample_reviews :: string

text \<open>Line 75: \<open>dropna(subset=['product_name'])\<close>; each kept row is paired with its name.\<close>

definition dropna_product_name :: "product_row list \<Rightarrow> (string \<times> product_row) list" where
  "dropna_product_name rows =
     List.map_filter (\<lambda>r. map_option (\<lambda>n. (n, r)) (read_cell (csv_product_name r))) rows"

text \<open>Lines 78-98 on one row.\<close>

definition concat_features :: "string \<Rightarrow> string \<Rightarrow> string \<Rightarrow> string \<Rightarrow> string \<Rightarrow> string" where
  "concat_features n b p s i = n @ '' '' @ b @ '' '' @ p @ '' '' @ s @ '' '' @ i"

definition preprocess_row :: "string \<times> product_row \<Rightarrow> product_base" where
  "preprocess_row nr =
     (let n = fst nr; r = snd nr;
          brand = fillna ''Unknown Brand'' (read_cell (csv_brand_name r));
          primary = fillna ''Skincare'' (read_cell (csv_primary_category r));
          secondary = fillna [] (read_cell (csv_secondary_category r));
          ingr = fillna [] (read_cell (csv_ingredients r));
          name_clean = clean_text (Some n);
          brand_clean = clean_text (Some brand);
          ingr_clean = clean_text (Some ingr)
      in \<lparr> product_id = read_cell (csv_product_id r),
           product_name = n,
           brand_name = brand,
           primary_category = primary,
           secondary_category = secondary,
           ingredients = ingr,
           rating = fillna 0 (csv_rating r),
           reviews = fillna 0 (csv_reviews r),
           price_usd = fillna 0 (csv_price_usd r),
           product_name_clean = name_clean,
           brand_name_clean = brand_clean,
           ingredients_clean = ingr_clean,
           combined_features =
             concat_features name_clean brand_clean (clean_text (Some primary))
               (clean_text (Some secondary)) ingr_clean \<rparr>)"

subsection \<open>Review statistics (lines 102-116)\<close>

text \<open>\<open>groupby('product_id')\<close>: one group per product id that occurs in the reviews; rows
  without an id are dropped. pandas orders the groups by key; the left merges below look
  groups up by key, so the groups are kept here in order of first occurrence.\<close>

definition group_keys :: "review_row list \<Rightarrow> string list" where
  "group_keys rs = remdups (List.map_filter (\<lambda>r. read_cell (rev_product_id r)) rs)"

definition group_rows :: "string \<Rightarrow> review_row list \<Rightarrow> review_row list" where
  "group_rows pid rs = filter (\<lambda>r. read_cell (rev_product_id r) = Some pid) rs"

text \<open>\<open>mean\<close> skips NaN and is NaN on no values; \<open>count\<close> counts the values that are
  not NaN.\<close>

definition mean :: "real list \<Rightarrow> real option" where
  "mean xs = (if xs = [] then None else Some (sum_list xs / real (length xs)))"

definition review_stats :: "review_row list \<Rightarrow> (string \<times> real option \<times> nat \<times> nat) list" where
  "review_stats rs =
     map (\<lambda>pid.
            let g = group_rows pid rs;
                ratings = List.map_filter rev_rating g
            in (pid, mean ratings, length ratings,
                length (filter (\<lambda>r. read_cell (rev_review_text r) \<noteq> None) g)))
         (group_keys rs)"

text \<open>\<open>left.merge(right, on='product_id', how='left')\<close>: every left row, in order, once
  per matching right row, or once with missing right columns when none matches.\<close>

definition merge_left :: "('a \<Rightarrow> string option) \<Rightarrow> 'a list \<Rightarrow> (string \<times> 'b) list \<Rightarrow> ('a \<times> 'b option) list" where
  "merge_left key left right =
     concat (map (\<lambda>x. case filter (\<lambda>kv. Some (fst kv) = key x) right of
                         [] \<Rightarrow> [(x, None)]
                       | ms \<Rightarrow> map (\<lambda>kv. (x, Some (snd kv))) ms) left)"

subsection \<open>Review sentiment (lines 132-153)\<close>

text \<open>What the build takes from outside this program: the fitted TF-IDF vectoriser with
  the product matrix and scikit-learn's cosine similarity (\<open>fit_transform\<close> gives, for a
  query text and a row position, their cosine similarity, or fails), the random sample of
  the reviews that pandas draws, TextBlob's polarity (\<open>None\<close> when it raises), and the
  regular-expression engine behind \<open>str.contains\<close> (\<open>None\<close> when the pattern does not
  compile).\<close>

record env =
  fit_transform :: "string list \<Rightarrow> (string \<Rightarrow> nat \<Rightarrow> real) option"
  sample :: "nat \<Rightarrow> review_row list \<Rightarrow> review_row list"
  polarity :: "string \<Rightarrow> real option"
  re_compile :: "string \<Rightarrow> (string \<Rightarrow> bool) option"

definition get_sentiment :: "env \<Rightarrow> string option \<Rightarrow> real" where
  "get_sentiment e text =
     (case text of
        None \<Rightarrow> 0
      | Some t \<Rightarrow> if t = [] then 0 else (case polarity e t of None \<Rightarrow> 0 | Some p \<Rightarrow> p))"

text \<open>\<open>str(text)\<close> of a cell: NaN prints as \<open>nan\<close>.\<close>

definition str_cell :: "string option \<Rightarrow> string" where
  "str_cell c = (case c of None \<Rightarrow> ''nan'' | Some t \<Rightarrow> t)"

definition product_sentiment :: "env \<Rightarrow> review_row list \<Rightarrow> (string \<times> real option \<times> string) list" where
  "product_sentiment e sample_reviews_df =
     map (\<lambda>pid.
            let g = group_rows pid sample_reviews_df
            in (pid,
                mean (map (\<lambda>r. get_sentiment e (read_cell (rev_review_text r))) g),
                join '' '' (map (\<lambda>r. str_cell (read_cell (rev_review_text r))) (take 3 g))))
         (group_keys sample_reviews_df)"

subsection \<open>\<open>load_and_preprocess_data\<close> (lines 41-164)\<close>

text \<open>Lines 111-116 and 151-153 on one merged row.\<close>

definition finish_row :: "(product_base \<times> (real option \<times> nat \<times> nat) option) \<times> (real option \<times> string) option \<Rightarrow> product" where
  "finish_row m =
     (let b = fst (fst m); st = snd (fst m); se = snd m;
          avg = Option.bind st fst;
          cnt = map_option (\<lambda>s. fst (snd s)) st
      in product_base.extend b
           (product.fields avg cnt (map_option (\<lambda>s. snd (snd s)) st)
              (fillna (rating b) avg)
              (fillna (reviews b) (map_option real cnt))
              (fillna 0 (Option.bind se fst))
              (fillna [] (map_option snd se))))"

text \<open>The module's globals once the build has succeeded. The global state of the program
  is a \<open>state option\<close>: \<open>None\<close> while the globals are still \<open>None\<close>. When the build
  returns \<open>False\<close> the main block does not start the server, so no request is ever served
  from a partly built state; the build is modelled as returning \<open>None\<close> then.\<close>

record state =
  products_df :: "product list"
  reviews_df :: "review_row list"
  tfidf :: "string \<Rightarrow> nat \<Rightarrow> real"

text \<open>The arguments are the content of \<open>data/product_info.csv\<close> (\<open>None\<close> if the file does
  not exist) and of the files matching \<open>data/reviews_*.csv\<close>, in sorted order.\<close>

definition load_and_preprocess_data :: "env \<Rightarrow> product_row list option \<Rightarrow> review_row list list \<Rightarrow> state option" where
  "load_and_preprocess_data e product_file review_files =
     (case product_file of
        None \<Rightarrow> None
      | Some rows \<Rightarrow>
          if review_files = [] then None
          else
            let revs = concat review_files;
                base = map preprocess_row (dropna_product_name rows);
                merged = merge_left product_id base (review_stats revs)
            in (case fit_transform e (map (\<lambda>m. combined_features (fst m)) merged) of
                  None \<Rightarrow> None
                | Some sim \<Rightarrow>
                    let sampled = sample e (min 10000 (length revs)) revs;
                        merged2 = merge_left (\<lambda>m. product_id (fst m)) merged
                                    (product_sentiment e sampled)
                    in Some \<lparr> products_df = map finish_row merged2,
                              reviews_df = revs,
                              tfidf = sim \<rparr>))"

section \<open>Search: \<open>get_product_recommendations\<close> (lines 166-240)\<close>

datatype error = ValueError | RegexError

text \<open>One dictionary of the result list (lines 221-235).\<close>

record result =
  r_product_id :: "string option"
  r_product_name :: string
  r_brand_name :: string
  r_category :: string
  r_subcategory :: string
  r_price_usd :: "real option"
  r_rating :: real
  r_review_count :: int
  r_similarity_score :: real
  r_composite_score :: real
  r_sentiment_score :: real
  r_ingredients :: string
  r_sample_reviews :: string

text \<open>\<open>np.log1p\<close>. On reals it is \<open>ln (1 + x)\<close>; numpy agrees for \<open>x > -1\<close> and gives
  \<open>-inf\<close> or NaN below, which a real cannot hold.\<close>

definition log1p :: "real \<Rightarrow> real" where
  "log1p x = ln (1 + x)"

text \<open>\<open>int(x)\<close> on a float truncates towards zero.\<close>

definition int_of_float :: "real \<Rightarrow> int" where
  "int_of_float x = (if 0 \<le> x then \<lfloor>x\<rfloor> else \<lceil>x\<rceil>)"

text \<open>\<open>s[:n] + '...' if len(s) > n else s\<close>\<close>

definition excerpt :: "nat \<Rightarrow> string \<Rightarrow> string" where
  "excerpt n s = (if length s > n then take n s @ ''...'' else s)"

text \<open>Lines 213-219.\<close>

definition rating_bonus :: "product \<Rightarrow> real" where
  "rating_bonus p = (final_rating p / 5.0) * 0.2"

definition review_bonus :: "product \<Rightarrow> real" where
  "review_bonus p = min (log1p (final_review_count p) / 10) 0.1"

definition sentiment_bonus :: "product \<Rightarrow> real" where
  "sentiment_bonus p = max (avg_sentiment p) 0 * 0.1"

definition composite_score :: "real \<Rightarrow> product \<Rightarrow> real" where
  "composite_score base_similarity p =
     base_similarity + rating_bonus p + review_bonus p + sentiment_bonus p"

text \<open>Lines 221-235.\<close>

definition make_result :: "real \<Rightarrow> product \<Rightarrow> result" where
  "make_result base_similarity p =
     \<lparr> r_product_id = product_id p,
       r_product_name = product_name p,
       r_brand_name = brand_name p,
       r_category = primary_category p,
       r_subcategory = secondary_category p,
       r_price_usd = (if price_usd p > 0 then Some (price_usd p) else None),
       r_rating = final_rating p,
       r_review_count = int_of_float (final_review_count p),
       r_similarity_score = base_similarity,
       r_composite_score = composite_score base_similarity p,
       r_sentiment_score = avg_sentiment p,
       r_ingredients = excerpt 300 (ingredients p),
       r_sample_reviews = excerpt 200 (sample_reviews p) \<rparr>"

text \<open>\<open>xs.sort(key=k, reverse=True)\<close>: Python's sort is stable, also with
  \<open>reverse=True\<close>: elements with equal keys keep their order. The same function models
  \<open>DataFrame.nlargest(n, column)\<close> with its default \<open>keep='first'\<close> below.\<close>

fun insort_desc :: "('a \<Rightarrow> real) \<Rightarrow> 'a \<Rightarrow> 'a list \<Rightarrow> 'a list" where
  "insort_desc k x [] = [x]"
| "insort_desc k x (y # ys) = (if k y \<le> k x then x # y # ys else y # insort_desc k x ys)"

definition sort_reverse :: "('a \<Rightarrow> real) \<Rightarrow> 'a list \<Rightarrow> 'a list" where
  "sort_reverse k xs = foldr (insort_desc k) xs []"

text \<open>\<open>xs[:n]\<close>: a negative \<open>n\<close> counts from the end.\<close>

definition slice_to :: "int \<Rightarrow> 'a list \<Rightarrow> 'a list" where
  "slice_to n xs = (if 0 \<le> n then take (nat n) xs else take (length xs - nat (- n)) xs)"

text \<open>The rows of a frame with their index labels. After the merges of the build the
  labels of \<open>products_df\<close> are the positions \<open>0, 1, ...\<close>, the rows of the product matrix.\<close>

definition indexed :: "'a list \<Rightarrow> (nat \<times> 'a) list" where
  "indexed xs = zip [0 ..< length xs] xs"

text \<open>Lines 177-182. \<open>price_range\<close> is the JSON array of the request, \<open>None\<close> when absent;
  an empty array is falsy, and unpacking \<open>min_price, max_price = price_range\<close> raises
  \<open>ValueError\<close> unless there are exactly two elements.\<close>

definition filter_price :: "real list option \<Rightarrow> (nat \<times> product) list \<Rightarrow> error + (nat \<times> product) list" where
  "filter_price price_range rows =
     (case price_range of
        None \<Rightarrow> Inr rows
      | Some [] \<Rightarrow> Inr rows
      | Some [min_price, max_price] \<Rightarrow>
          Inr (filter (\<lambda>ip. price_usd (snd ip) \<ge> min_price \<and> price_usd (snd ip) \<le> max_price) rows)
      | Some _ \<Rightarrow> Inl ValueError)"

text \<open>Lines 184-187. \<open>str.contains\<close> searches with the filter as a regular expression.\<close>

definition filter_brand :: "env \<Rightarrow> string option \<Rightarrow> (nat \<times> product) list \<Rightarrow> error + (nat \<times> product) list" where
  "filter_brand e brand_filter rows =
     (case brand_filter of
        None \<Rightarrow> Inr rows
      | Some b \<Rightarrow>
          if b \<noteq> [] \<and> lower b \<noteq> ''all''
          then (case re_compile e (lower b) of
                  None \<Rightarrow> Inl RegexError
                | Some matches \<Rightarrow> Inr (filter (\<lambda>ip. matches (lower (brand_name (snd ip)))) rows))
          else Inr rows)"

text \<open>Lines 193-195. \<open>skin_concerns\<close> is a list; \<open>None\<close> and the empty list are both falsy.\<close>

definition enhanced_query :: "string \<Rightarrow> string list \<Rightarrow> string" where
  "enhanced_query query skin_concerns =
     (if skin_concerns \<noteq> []
      then clean_text (Some query) @ '' '' @ join '' '' (map (\<lambda>c. clean_text (Some c)) skin_concerns)
      else clean_text (Some query))"

text \<open>Lines 208-235: the loop over the filtered rows. The index label of each row is
  kept beside its dictionary, to state the order of the result list.\<close>

definition score_rows :: "(nat \<Rightarrow> real) \<Rightarrow> (nat \<times> product) list \<Rightarrow> (nat \<times> result) list" where
  "score_rows similarity rows =
     List.map_filter
       (\<lambda>ip. if similarity (fst ip) > 0
              then Some (fst ip, make_result (similarity (fst ip)) (snd ip))
              else None) rows"

definition recommendations_indexed ::
  "env \<Rightarrow> state option \<Rightarrow> string \<Rightarrow> string list \<Rightarrow> real list option \<Rightarrow> string option \<Rightarrow> int
     \<Rightarrow> error + (nat \<times> result) list" where
  "recommendations_indexed e st query skin_concerns price_range brand_filter top_n =
     (case st of
        None \<Rightarrow> Inr []
      | Some s \<Rightarrow>
          (case filter_price price_range (indexed (products_df s)) of
             Inl err \<Rightarrow> Inl err
           | Inr by_price \<Rightarrow>
               (case filter_brand e brand_filter by_price of
                  Inl err \<Rightarrow> Inl err
                | Inr filtered_products \<Rightarrow>
                    if length filtered_products = 0 then Inr []
                    else
                      let results = score_rows (tfidf s (enhanced_query query skin_concerns))
                                      filtered_products
                      in Inr (slice_to top_n
                                (sort_reverse (\<lambda>ir. r_composite_score (snd ir)) results)))))"

definition get_product_recommendations ::
  "env \<Rightarrow> state option \<Rightarrow> string \<Rightarrow> string list \<Rightarrow> real list option \<Rightarrow> string option \<Rightarrow> int
     \<Rightarrow> error + result list" where
  "get_product_recommendations e st query skin_concerns price_range brand_filter top_n =
     map_sum id (map snd)
       (recommendations_indexed e st query skin_concerns price_range brand_filter top_n)"

section \<open>The endpoint \<open>/api/search\<close>: \<open>search_products\<close> (lines 280-314)\<close>

text \<open>The JSON body of the request; a key that is absent is \<open>None\<close>.\<close>

record request =
  req_query :: "string option"
  req_skin_concerns :: "string list option"
  req_price_range :: "real list option"
  req_brand :: "string option"
  req_limit :: "int option"

record search_payload =
  p_query :: string
  p_skin_concerns :: "string list"
  p_price_range :: "real list option"
  p_brand :: "string option"
  p_total_results :: nat
  p_products :: "result list"

datatype response =
  Ok200 search_payload
| BadRequest400 string
| ServerError500 error

text \<open>The handler reads the globals and writes none of them; the state is threaded
  through to make that explicit.\<close>

definition search_products :: "env \<Rightarrow> state option \<Rightarrow> request \<Rightarrow> response \<times> state option" where
  "search_products e st data =
     (let query = fillna [] (req_query data);
          skin_concerns = fillna [] (req_skin_concerns data);
          price_range = req_price_range data;
          brand_filter = req_brand data;
          limit = fillna 12 (req_limit data)
      in if query = [] then (BadRequest400 ''Query is required'', st)
         else (case get_product_recommendations e st query skin_concerns price_range
                      brand_filter limit of
                 Inl err \<Rightarrow> (ServerError500 err, st)
               | Inr recommendations \<Rightarrow>
                   (Ok200 \<lparr> p_query = query,
                            p_skin_concerns = skin_concerns,
                            p_price_range = price_range,
                            p_brand = brand_filter,
                            p_total_results = length recommendations,
                            p_products = recommendations \<rparr>, st)))"

section \<open>The endpoint \<open>/api/trending\<close>: \<open>get_trending\<close> (lines 402-430)\<close>

record trending_record =
  t_product_id :: "string option"
  t_product_name :: string
  t_brand_name :: string
  t_final_rating :: real
  t_final_review_count :: real
  t_price_usd :: real
  t_trending_score :: real

text \<open>Lines 415-419.\<close>

definition trending_score :: "product \<Rightarrow> real" where
  "trending_score p =
     final_rating p * 0.4 + log1p (final_review_count p) * 0.4
       + (avg_sentiment p + 1) * 2.5 * 0.2"

definition make_trending :: "product \<Rightarrow> trending_record" where
  "make_trending p =
     \<lparr> t_product_id = product_id p,
       t_product_name = product_name p,
       t_brand_name = brand_name p,
       t_final_rating = final_rating p,
       t_final_review_count = final_review_count p,
       t_price_usd = price_usd p,
       t_trending_score = trending_score p \<rparr>"

text \<open>Lines 410-421: the rows that pass the two thresholds, and the 20 largest of them by
  \<open>trending_score\<close> (\<open>nlargest\<close> orders them descending and, with \<open>keep='first'\<close>, keeps
  rows of equal score in frame order).\<close>

definition trending_products :: "state \<Rightarrow> (nat \<times> product) list" where
  "trending_products s =
     filter (\<lambda>ip. final_rating (snd ip) \<ge> 4.0 \<and> final_review_count (snd ip) \<ge> 50)
       (indexed (products_df s))"

definition trending_indexed :: "state \<Rightarrow> (nat \<times> product) list" where
  "trending_indexed s =
     take 20 (sort_reverse (\<lambda>ip. trending_score (snd ip)) (trending_products s))"

text \<open>\<open>None\<close> is the response 500 "Data not loaded".\<close>

definition get_trending :: "state option \<Rightarrow> trending_record list option" where
  "get_trending st =
     (case st of
        None \<Rightarrow> None
      | Some s \<Rightarrow> Some (map (\<lambda>ip. make_trending (snd ip)) (trending_indexed s)))"

section \<open>Predicates and sample data for the properties below\<close>

definition word_ok :: "string \<Rightarrow> bool" where
  "word_ok w = (w \<noteq> [] \<and> (\<forall>c\<in>set w. \<not> is_space c))"

definition starts_space :: "string \<Rightarrow> bool" where
  "starts_space s = (s \<noteq> [] \<and> hd s = CHR '' '')"

definition ends_space :: "string \<Rightarrow> bool" where
  "ends_space s = (s \<noteq> [] \<and> last s = CHR '' '')"

text \<open>Only lowercase letters, digits and single inner spaces.\<close>

definition tidy :: "string \<Rightarrow> bool" where
  "tidy s = ((\<forall>c\<in>set s. clean_char c) \<and> \<not> double_space s \<and> \<not> starts_space s \<and> \<not> ends_space s)"

text \<open>Descending by key; rows of equal key in the order of their index labels.\<close>

definition ranks_before :: "('a \<Rightarrow> real) \<Rightarrow> nat \<times> 'a \<Rightarrow> nat \<times> 'a \<Rightarrow> bool" where
  "ranks_before k a b = (k (snd b) < k (snd a) \<or> (k (snd a) = k (snd b) \<and> fst a < fst b))"

definition catalog_size :: "state option \<Rightarrow> nat" where
  "catalog_size st = (case st of None \<Rightarrow> 0 | Some s \<Rightarrow> length (products_df s))"

text \<open>A small catalog file: the second line has no product name, the first no secondary
  category, the last a negative listed rating.\<close>

definition ex_rows :: "product_row list" where
  "ex_rows =
     [\<lparr> csv_product_id = ''P1'', csv_product_name = ''Hydrating Serum'', csv_brand_name = ''A'',
         csv_primary_category = ''Skincare'', csv_secondary_category = [],
         csv_ingredients = ''Water'', csv_rating = Some 4, csv_reviews = Some 0,
         csv_price_usd = Some 30 \<rparr>,
      \<lparr> csv_product_id = ''P2'', csv_product_name = [], csv_brand_name = ''B'',
         csv_primary_category = ''Makeup'', csv_secondary_category = ''Face'',
         csv_ingredients = [], csv_rating = Some 5, csv_reviews = Some 0,
         csv_price_usd = Some 10 \<rparr>,
      \<lparr> csv_product_id = ''P3'', csv_product_name = ''Hydrating Cream'', csv_brand_name = ''A'',
         csv_primary_category = ''Skincare'', csv_secondary_category = ''Moisturizers'',
         csv_ingredients = ''Water, Glycerin'', csv_rating = Some 4, csv_reviews = None,
         csv_price_usd = Some 40 \<rparr>,
      \<lparr> csv_product_id = ''P4'', csv_product_name = ''Mattifying Gel'', csv_brand_name = ''B'',
         csv_primary_category = ''Skincare'', csv_secondary_category = ''Treatments'',
         csv_ingredients = ''Clay'', csv_rating = Some (- 1), csv_reviews = Some 0,
         csv_price_usd = Some 15 \<rparr>]"

definition ex_reviews :: "review_row list list" where
  "ex_reviews =
     [[\<lparr> rev_product_id = ''P9'', rev_rating = Some 5, rev_review_text = ''Lovely'' \<rparr>]]"

definition ex_sim :: "string \<Rightarrow> nat \<Rightarrow> real" where
  "ex_sim q i = (if i = 1 then 0 else 1 / 2)"

definition ex_env :: env where
  "ex_env =
     \<lparr> fit_transform = (\<lambda>docs. Some ex_sim),
       sample = (\<lambda>n rs. take n rs),
       polarity = (\<lambda>t. Some (1 / 2)),
       re_compile = (\<lambda>pat. Some (\<lambda>s. pat = s)) \<rparr>"

text \<open>The catalog that the build makes of these files.\<close>

definition ex_p1 :: product where
  "ex_p1 =
     \<lparr> product_id = Some ''P1'', product_name = ''Hydrating Serum'', brand_name = ''A'',
       primary_category = ''Skincare'', secondary_category = [], ingredients = ''Water'',
       rating = 4, reviews = 0, price_usd = 30, product_name_clean = ''hydrating serum'',
       brand_name_clean = ''a'', ingredients_clean = ''water'',
       combined_features = ''hydrating serum a skincare  water'',
       avg_rating = None, rating_count = None, review_count = None,
       final_rating = 4, final_review_count = 0, avg_sentiment = 0, sample_reviews = [] \<rparr>"

definition ex_p3 :: product where
  "ex_p3 =
     \<lparr> product_id = Some ''P3'', product_name = ''Hydrating Cream'', brand_name = ''A'',
       primary_category = ''Skincare'', secondary_category = ''Moisturizers'',
       ingredients = ''Water, Glycerin'', rating = 4, reviews = 0, price_usd = 40,
       product_name_clean = ''hydrating cream'', brand_name_clean = ''a'',
       ingredients_clean = ''water glycerin'',
       combined_features = ''hydrating cream a skincare moisturizers water glycerin'',
       avg_rating = None, rating_count = None, review_count = None,
       final_rating = 4, final_review_count = 0, avg_sentiment = 0, sample_reviews = [] \<rparr>"

definition ex_p4 :: product where
  "ex_p4 =
     \<lparr> product_id = Some ''P4'', product_name = ''Mattifying Gel'', brand_name = ''B'',
       primary_category = ''Skincare'', secondary_category = ''Treatments'',
       ingredients = ''Clay'', rating = - 1, reviews = 0, price_usd = 15,
       product_name_clean = ''mattifying gel'', brand_name_clean = ''b'',
       ingredients_clean = ''clay'',
       combined_features = ''mattifying gel b skincare treatments clay'',
       avg_rating = None, rating_count = None, review_count = None,
       final_rating = - 1, final_review_count = 0, avg_sentiment = 0, sample_reviews = [] \<rparr>"

definition ex_products :: "product list" where
  "ex_products = [ex_p1, ex_p3, ex_p4]"

definition ex_state :: state where
  "ex_state = \<lparr> products_df = ex_products, reviews_df = concat ex_reviews, tfidf = ex_sim \<rparr>"




text \<open>The brand filter is absent, ignored, or a pattern that compiles.\<close>

definition brand_pattern_ok :: "env \<Rightarrow> string option \<Rightarrow> bool" where
  "brand_pattern_ok e brand_filter =
     (case brand_filter of
        None \<Rightarrow> True
      | Some b \<Rightarrow> b = [] \<or> lower b = ''all'' \<or> re_compile e (lower b) \<noteq> None)"

text \<open>The first three lines of the sample file, with two reviews of the first product.\<close>

definition ex_rows_ok :: "product_row list" where
  "ex_rows_ok = take 3 ex_rows"

definition ex_reviews_ok :: "review_row list list" where
  "ex_reviews_ok =
     [[\<lparr> rev_product_id = ''P1'', rev_rating = Some 5, rev_review_text = ''Lovely'' \<rparr>],
      [\<lparr> rev_product_id = ''P1'', rev_rating = Some 4, rev_review_text = ''Nice'' \<rparr>]]"

definition ex_q1 :: product where
  "ex_q1 =
     \<lparr> product_id = Some ''P1'', product_name = ''Hydrating Serum'', brand_name = ''A'',
       primary_category = ''Skincare'', secondary_category = [], ingredients = ''Water'',
       rating = 4, reviews = 0, price_usd = 30, product_name_clean = ''hydrating serum'',
       brand_name_clean = ''a'', ingredients_clean = ''water'',
       combined_features = ''hydrating serum a skincare  water'',
       avg_rating = Some (9 / 2), rating_count = Some 2, review_count = Some 2,
       final_rating = 9 / 2, final_review_count = 2, avg_sentiment = 1 / 2,
       sample_reviews = ''Lovely Nice'' \<rparr>"

definition ex_state_ok :: state where
  "ex_state_ok = \<lparr> products_df = [ex_q1, ex_p3], reviews_df = concat ex_reviews_ok,
                    tfidf = ex_sim \<rparr>"

text \<open>A search request with the bounds of the price range in the wrong order, and one
  with a single bound.\<close>

definition ex_request_swapped :: request where
  "ex_request_swapped =
     \<lparr> req_query = Some ''hydrating'', req_skin_concerns = None,
       req_price_range = Some [20, 10], req_brand = None, req_limit = None \<rparr>"

definition ex_request_one_bound :: request where
  "ex_request_one_bound =
     \<lparr> req_query = Some ''hydrating'', req_skin_concerns = None,
       req_price_range = Some [20], req_brand = None, req_limit = None \<rparr>"

text \<open>A catalog for the trending list: the first product is below the review threshold,
  the other three pass both thresholds, and the last two have the same score.\<close>

definition ex_trending_state :: state where
  "ex_trending_state =
     \<lparr> products_df =
         [ex_p1,
          ex_p3\<lparr> final_rating := 4, final_review_count := 50 \<rparr>,
          ex_p1\<lparr> final_rating := 5, final_review_count := 50 \<rparr>,
          ex_p4\<lparr> final_rating := 5, final_review_count := 50 \<rparr>],
       reviews_df = [], tfidf = ex_sim \<rparr>"

text \<open>A search request without filters and without a limit.\<close>

definition ex_request_plain :: request where
  "ex_request_plain =
     \<lparr> req_query = Some ''hydrating'', req_skin_concerns = None,
       req_price_range = None, req_brand = None, req_limit = None \<rparr>"

section \<open>Properties of the text primitives\<close>
lemma code_lower_char:
  "code (lower_char c) = (if is_upper c \<or> (192 \<le> code c \<and> code c \<le> 222 \<and> code c \<noteq> 215) then code c + 32 else code c)"
  by (auto simp: lower_char_def code_def is_upper_def)

lemma lower_char_not_upper: "\<not> is_upper (lower_char c)"
  unfolding is_upper_def code_lower_char by (auto simp: is_upper_def)

lemma space_is_space: "is_space (CHR '' '')"
  by (simp add: is_space_def code_def)

lemma code_space: "code c = 32 \<longleftrightarrow> c = CHR '' ''"
proof -
  have "code (CHR '' '') = 32" by (simp add: code_def)
  then show ?thesis unfolding code_def by (metis of_char_eq_iff)
qed

lemma re_sub_lower_chars:
  assumes "c \<in> set (re_sub_special (lower t))"
  shows "is_lower c \<or> is_digit c \<or> is_space c"
  using assms lower_char_not_upper
  by (auto simp: re_sub_special_def lower_def keep_char_def space_is_space split: if_splits)

lemma split_acc_words:
  "\<forall>c\<in>set acc. \<not> is_space c \<Longrightarrow> w \<in> set (split_acc acc cs) \<Longrightarrow> word_ok w \<and> set w \<subseteq> set acc \<union> set cs"
proof (induction cs arbitrary: acc)
  case Nil
  then show ?case by (auto simp: word_ok_def split: if_splits)
next
  case (Cons c cs)
  show ?case
  proof (cases "is_space c")
    case True
    show ?thesis
    proof (cases "acc = []")
      case True
      with \<open>is_space c\<close> Cons.prems(2) have "w \<in> set (split_acc [] cs)" by simp
      from Cons.IH[OF _ this] show ?thesis by auto
    next
      case False
      with \<open>is_space c\<close> Cons.prems(2) have "w = rev acc \<or> w \<in> set (split_acc [] cs)" by simp
      then show ?thesis
      proof
        assume "w = rev acc"
        with False Cons.prems(1) show ?thesis by (auto simp: word_ok_def)
      next
        assume "w \<in> set (split_acc [] cs)"
        from Cons.IH[OF _ this] show ?thesis by auto
      qed
    qed
  next
    case False
    with Cons.prems(2) have w: "w \<in> set (split_acc (c # acc) cs)" by simp
    have "\<forall>d\<in>set (c # acc). \<not> is_space d" using False Cons.prems(1) by simp
    from Cons.IH[OF this w] show ?thesis by auto
  qed
qed

lemma double_space_append:
  "double_space (x @ y) \<longleftrightarrow> double_space x \<or> double_space y \<or> (ends_space x \<and> starts_space y)"
proof (induction x)
  case Nil
  then show ?case by (simp add: ends_space_def)
next
  case (Cons a x)
  show ?case
  proof (cases x)
    case Nil
    then show ?thesis by (cases y) (auto simp: ends_space_def starts_space_def)
  next
    case (Cons b x')
    with Cons.IH show ?thesis by (auto simp: ends_space_def starts_space_def)
  qed
qed

lemma word_no_space: "word_ok w \<Longrightarrow> \<not> double_space w \<and> \<not> starts_space w \<and> \<not> ends_space w"
proof -
  assume w: "word_ok w"
  have ns: "CHR '' '' \<notin> set w" using w space_is_space by (auto simp: word_ok_def)
  have "\<not> double_space w" using ns by (induction w rule: double_space.induct) auto
  moreover have "\<not> starts_space w" unfolding starts_space_def using ns hd_in_set by metis
  moreover have "\<not> ends_space w" unfolding ends_space_def using ns last_in_set by metis
  ultimately show ?thesis by simp
qed

lemma join_space_words:
  "\<forall>w\<in>set ws. word_ok w \<Longrightarrow>
     \<not> double_space (join '' '' ws) \<and> \<not> starts_space (join '' '' ws) \<and> \<not> ends_space (join '' '' ws)
     \<and> set (join '' '' ws) \<subseteq> \<Union> (set ` set ws) \<union> {CHR '' ''}"
proof (induction "'' ''" ws rule: join.induct)
  case 1
  then show ?case by (simp add: starts_space_def ends_space_def)
next
  case (2 w)
  then show ?case using word_no_space[of w] by auto
next
  case (3 w v ws)
  have w: "word_ok w" using 3(2) by simp
  have IH: "\<not> double_space (join '' '' (v # ws)) \<and> \<not> starts_space (join '' '' (v # ws)) \<and> \<not> ends_space (join '' '' (v # ws))
     \<and> set (join '' '' (v # ws)) \<subseteq> \<Union> (set ` set (v # ws)) \<union> {CHR '' ''}"
    using 3 by simp
  have ne: "join '' '' (v # ws) \<noteq> []" using 3(2) by (cases ws) (auto simp: word_ok_def)
  have wne: "w \<noteq> []" using w by (simp add: word_ok_def)
  have eq: "join '' '' (w # v # ws) = w @ ('' '' @ join '' '' (v # ws))" by simp
  have d: "\<not> double_space (join '' '' (w # v # ws))"
    unfolding eq double_space_append using word_no_space[OF w] IH
    by (auto simp: starts_space_def ends_space_def)
  have s: "\<not> starts_space (join '' '' (w # v # ws))"
    using word_no_space[OF w] wne by (auto simp: starts_space_def)
  have e: "\<not> ends_space (join '' '' (w # v # ws))"
    using IH ne by (auto simp: ends_space_def)
  have st: "set (join '' '' (w # v # ws)) \<subseteq> \<Union> (set ` set (w # v # ws)) \<union> {CHR '' ''}"
    using IH by auto
  from d s e st show ?case by blast
qed

lemma clean_text_tidy: "tidy (clean_text text)"
proof (cases "text")
  case None
  then show ?thesis by (simp add: clean_text_def tidy_def starts_space_def ends_space_def)
next
  case (Some t)
  show ?thesis
  proof (cases "t = []")
    case True
    with Some show ?thesis by (simp add: clean_text_def tidy_def starts_space_def ends_space_def)
  next
    case False
    let ?u = "re_sub_special (lower t)"
    have ws: "\<forall>w\<in>set (split ?u). word_ok w \<and> set w \<subseteq> set ?u"
      using split_acc_words[of "[]" _ ?u] by (auto simp: split_def)
    then have ok: "\<forall>w\<in>set (split ?u). word_ok w" by simp
    have ch: "\<forall>c\<in>set (join '' '' (split ?u)). clean_char c"
    proof
      fix c assume "c \<in> set (join '' '' (split ?u))"
      with join_space_words[OF ok] have "c = CHR '' '' \<or> (\<exists>w\<in>set (split ?u). c \<in> set w)" by auto
      then show "clean_char c"
      proof
        assume "c = CHR '' ''" then show ?thesis by (simp add: clean_char_def)
      next
        assume "\<exists>w\<in>set (split ?u). c \<in> set w"
        then obtain w where w: "w \<in> set (split ?u)" "c \<in> set w" by blast
        with ws have "c \<in> set ?u" "\<not> is_space c" by (auto simp: word_ok_def)
        with re_sub_lower_chars[of c t] show ?thesis by (auto simp: clean_char_def)
      qed
    qed
    from ch join_space_words[OF ok] Some False show ?thesis
      by (simp add: clean_text_def tidy_def)
  qed
qed

section \<open>Properties of the build\<close>



lemma filter_key_distinct:
  "distinct (map fst right) \<Longrightarrow> length (filter (\<lambda>kv. Some (fst kv) = k) right) \<le> 1"
proof (induction right)
  case Nil
  then show ?case by simp
next
  case (Cons a right)
  have IH: "length (filter (\<lambda>kv. Some (fst kv) = k) right) \<le> 1"
    using Cons by simp
  show ?case
  proof (cases "Some (fst a) = k")
    case False
    with IH show ?thesis by simp
  next
    case True
    have "filter (\<lambda>kv. Some (fst kv) = k) right = []"
    proof (rule ccontr)
      assume "filter (\<lambda>kv. Some (fst kv) = k) right \<noteq> []"
      then obtain kv where kv: "kv \<in> set right" "Some (fst kv) = k"
        by (auto simp: filter_empty_conv)
      with True have "fst kv = fst a" by (metis option.inject)
      with kv(1) have "fst a \<in> set (map fst right)" by (metis image_eqI set_map)
      with Cons.prems show False by simp
    qed
    with True show ?thesis by simp
  qed
qed

lemma merge_left_keys:
  assumes "distinct (map fst right)"
  shows "map fst (merge_left key left right) = left"
proof (induction left)
  case Nil
  then show ?case by (simp add: merge_left_def)
next
  case (Cons x left)
  let ?ms = "filter (\<lambda>kv. Some (fst kv) = key x) right"
  have "length ?ms \<le> 1" using assms by (rule filter_key_distinct)
  then have "?ms = [] \<or> (\<exists>m. ?ms = [m])"
    by (cases ?ms) (auto simp: length_Suc_conv)
  then have "map fst (case ?ms of [] \<Rightarrow> [(x, None)] | ms \<Rightarrow> map (\<lambda>kv. (x, Some (snd kv))) ms) = [x]"
    by (auto split: list.splits)
  with Cons show ?case by (simp add: merge_left_def)
qed

lemma review_stats_keys: "distinct (map fst (review_stats rs))"
  by (simp add: review_stats_def group_keys_def comp_def Let_def)

lemma product_sentiment_keys: "distinct (map fst (product_sentiment e rs))"
  by (simp add: product_sentiment_def group_keys_def comp_def Let_def)

lemma load_products:
  assumes "load_and_preprocess_data e (Some rows) review_files = Some s"
  shows "products_df s =
           map finish_row
             (merge_left (\<lambda>m. product_id (fst m))
                (merge_left product_id (map preprocess_row (dropna_product_name rows))
                   (review_stats (concat review_files)))
                (product_sentiment e
                   (sample e (min 10000 (length (concat review_files))) (concat review_files))))"
  using assms
  by (auto simp: load_and_preprocess_data_def Let_def split: option.splits if_splits)

lemma truncate_finish_row: "product_base.truncate (finish_row m) = fst (fst m)"
  by (simp add: finish_row_def Let_def product_base.defs product.defs)

lemma base_of_products:
  assumes "load_and_preprocess_data e (Some rows) review_files = Some s"
  shows "map product_base.truncate (products_df s) = map preprocess_row (dropna_product_name rows)"
proof -
  have "map product_base.truncate (products_df s) =
          map fst (map fst (merge_left (\<lambda>m. product_id (fst m))
                (merge_left product_id (map preprocess_row (dropna_product_name rows))
                   (review_stats (concat review_files)))
                (product_sentiment e
                   (sample e (min 10000 (length (concat review_files))) (concat review_files)))))"
    unfolding load_products[OF assms] by (simp add: truncate_finish_row comp_def)
  also have "\<dots> = map preprocess_row (dropna_product_name rows)"
    by (simp only: merge_left_keys[OF product_sentiment_keys] merge_left_keys[OF review_stats_keys])
  finally show ?thesis .
qed

lemma dropna_product_name_eq:
  "dropna_product_name rows =
     map (\<lambda>r. (csv_product_name r, r)) (filter (\<lambda>r. csv_product_name r \<notin> set na_values) rows)"
  by (induction rows) (auto simp: dropna_product_name_def List.map_filter_def read_cell_def)

section \<open>The normalised text of a product\<close>

lemma concat_features_chars:
  assumes "tidy n" "tidy b" "tidy p" "tidy s" "tidy i"
  shows "\<forall>c\<in>set (concat_features n b p s i). clean_char c"
  using assms by (auto simp: concat_features_def tidy_def clean_char_def)

lemma double_space_sep:
  assumes "\<not> double_space x" "\<not> ends_space x"
  shows "double_space (x @ '' '' @ y) = (double_space y \<or> starts_space y)"
proof -
  have "double_space ('' '' @ y) = (double_space y \<or> starts_space y)"
    by (cases y) (auto simp: starts_space_def)
  with assms show ?thesis by (simp only: double_space_append[of x]) simp
qed

lemma starts_space_sep:
  assumes "\<not> starts_space x"
  shows "starts_space (x @ '' '' @ y) = (x = [])"
  using assms by (cases x) (auto simp: starts_space_def)

lemma concat_features_double_space:
  assumes "tidy n" "tidy b" "tidy p" "tidy s" "tidy i"
  shows "double_space (concat_features n b p s i) \<longleftrightarrow> b = [] \<or> p = [] \<or> s = []"
proof -
  have 1: "double_space (s @ '' '' @ i) = False"
    using assms(4,5) double_space_sep[of s i] by (simp add: tidy_def)
  have 2: "double_space (p @ '' '' @ s @ '' '' @ i) = (s = [])"
    using assms(3,4) double_space_sep[of p "s @ '' '' @ i"] starts_space_sep[of s i] 1
    by (simp add: tidy_def)
  have 3: "double_space (b @ '' '' @ p @ '' '' @ s @ '' '' @ i) = (s = [] \<or> p = [])"
    using assms(2,3) double_space_sep[of b "p @ '' '' @ s @ '' '' @ i"]
      starts_space_sep[of p "s @ '' '' @ i"] 2
    by (simp add: tidy_def)
  have 4: "double_space (n @ '' '' @ b @ '' '' @ p @ '' '' @ s @ '' '' @ i) = (s = [] \<or> p = [] \<or> b = [])"
    using assms(1,2) double_space_sep[of n "b @ '' '' @ p @ '' '' @ s @ '' '' @ i"]
      starts_space_sep[of b "p @ '' '' @ s @ '' '' @ i"] 3
    by (simp add: tidy_def)
  show ?thesis unfolding concat_features_def 4 by blast
qed

lemma preprocess_row_features:
  "combined_features (preprocess_row nr) =
     concat_features (product_name_clean (preprocess_row nr)) (brand_name_clean (preprocess_row nr))
       (clean_text (Some (primary_category (preprocess_row nr))))
       (clean_text (Some (secondary_category (preprocess_row nr))))
       (ingredients_clean (preprocess_row nr))
   \<and> tidy (product_name_clean (preprocess_row nr))
   \<and> tidy (brand_name_clean (preprocess_row nr))
   \<and> tidy (ingredients_clean (preprocess_row nr))"
  by (simp add: preprocess_row_def Let_def clean_text_tidy)

lemma truncate_fields:
  "combined_features (product_base.truncate p) = combined_features p"
  "brand_name_clean (product_base.truncate p) = brand_name_clean p"
  "product_name_clean (product_base.truncate p) = product_name_clean p"
  "ingredients_clean (product_base.truncate p) = ingredients_clean p"
  "primary_category (product_base.truncate p) = primary_category p"
  "secondary_category (product_base.truncate p) = secondary_category p"
  "product_id (product_base.truncate p) = product_id p"
  "product_name (product_base.truncate p) = product_name p"
  "rating (product_base.truncate p) = rating p"
  "reviews (product_base.truncate p) = reviews p"
  by (simp_all add: product_base.defs)

lemma product_is_preprocessed:
  assumes "load_and_preprocess_data e (Some rows) review_files = Some s"
    and "p \<in> set (products_df s)"
  shows "\<exists>nr\<in>set (dropna_product_name rows). product_base.truncate p = preprocess_row nr"
proof -
  have "product_base.truncate p \<in> set (map product_base.truncate (products_df s))"
    using assms(2) by simp
  then show ?thesis unfolding base_of_products[OF assms(1)] by auto
qed

section \<open>Properties of sorting, slicing and the search pipeline\<close>

lemma set_insort_desc: "set (insort_desc k x ys) = insert x (set ys)"
  by (induction ys) auto

lemma set_sort_reverse: "set (sort_reverse k xs) = set xs"
  by (induction xs) (auto simp: sort_reverse_def set_insort_desc)

lemma length_insort_desc: "length (insort_desc k x ys) = Suc (length ys)"
  by (induction ys) auto

lemma length_sort_reverse: "length (sort_reverse k xs) = length xs"
  by (induction xs) (auto simp: sort_reverse_def length_insort_desc)

lemma ranks_before_trans:
  "ranks_before k a b \<Longrightarrow> ranks_before k b c \<Longrightarrow> ranks_before k a c"
  by (auto simp: ranks_before_def)

lemma insort_desc_ranks:
  assumes "sorted_wrt (ranks_before k) ys" and "\<forall>y\<in>set ys. fst x < fst y"
  shows "sorted_wrt (ranks_before k) (insort_desc (\<lambda>a. k (snd a)) x ys)"
  using assms
proof (induction ys)
  case Nil
  then show ?case by simp
next
  case (Cons y ys)
  show ?case
  proof (cases "k (snd y) \<le> k (snd x)")
    case True
    have xy: "ranks_before k x y" using True Cons.prems(2) by (auto simp: ranks_before_def)
    have "\<forall>z\<in>set ys. ranks_before k y z" using Cons.prems(1) by simp
    then have "\<forall>z\<in>set ys. ranks_before k x z" using xy ranks_before_trans by blast
    with xy True Cons.prems(1) show ?thesis by simp
  next
    case False
    then have yx: "ranks_before k y x" by (simp add: ranks_before_def)
    have "sorted_wrt (ranks_before k) (insort_desc (\<lambda>a. k (snd a)) x ys)"
      using Cons by simp
    with yx False Cons.prems(1) show ?thesis by (auto simp: set_insort_desc)
  qed
qed

lemma sort_reverse_ranks:
  assumes "sorted_wrt (\<lambda>a b. fst a < fst b) xs"
  shows "sorted_wrt (ranks_before k) (sort_reverse (\<lambda>a. k (snd a)) xs)"
  using assms
proof (induction xs)
  case Nil
  then show ?case by (simp add: sort_reverse_def)
next
  case (Cons x xs)
  have s: "sorted_wrt (ranks_before k) (sort_reverse (\<lambda>a. k (snd a)) xs)"
    using Cons by simp
  have "\<forall>y\<in>set (sort_reverse (\<lambda>a. k (snd a)) xs). fst x < fst y"
    using Cons.prems by (simp add: set_sort_reverse)
  from insort_desc_ranks[OF s this] show ?case by (simp add: sort_reverse_def)
qed


lemma slice_to_take: "\<exists>m. slice_to n xs = take m xs"
  by (auto simp: slice_to_def)

lemma set_slice_to: "set (slice_to n xs) \<subseteq> set xs"
  by (simp add: slice_to_def set_take_subset)


lemma indexed_nth: "(i, x) \<in> set (indexed xs) \<longleftrightarrow> i < length xs \<and> x = xs ! i"
proof -
  have "indexed xs = enumerate 0 xs" by (simp add: indexed_def enumerate_eq_zip)
  then show ?thesis by (auto simp: in_set_enumerate_eq)
qed

lemma indexed_sorted: "sorted_wrt (\<lambda>a b. fst a < fst b) (indexed xs)"
proof -
  have "map fst (indexed xs) = [0 ..< length xs]" by (simp add: indexed_def)
  moreover have "sorted_wrt (<) [0 ..< length xs]" by (simp add: sorted_wrt_upt)
  ultimately have "sorted_wrt (<) (map fst (indexed xs))" by simp
  then show ?thesis by (simp add: sorted_wrt_map)
qed

lemma filter_price_sub:
  assumes "filter_price pr rows = Inr out"
  shows "set out \<subseteq> set rows \<and> (sorted_wrt R rows \<longrightarrow> sorted_wrt R out)"
proof (cases pr)
  case None
  with assms show ?thesis by (simp add: filter_price_def)
next
  case (Some l)
  show ?thesis
  proof (cases l)
    case Nil
    with Some assms show ?thesis by (simp add: filter_price_def)
  next
    case (Cons a l1)
    show ?thesis
    proof (cases l1)
      case Nil
      with Some Cons assms show ?thesis by (simp add: filter_price_def)
    next
      case (Cons b l2)
      with Some \<open>l = a # l1\<close> assms show ?thesis
        by (cases l2) (auto simp: filter_price_def sorted_wrt_filter)
    qed
  qed
qed

lemma filter_brand_sub:
  assumes "filter_brand e bf rows = Inr out"
  shows "set out \<subseteq> set rows \<and> (sorted_wrt R rows \<longrightarrow> sorted_wrt R out)"
  using assms
  by (auto simp: filter_brand_def sorted_wrt_filter split: option.splits if_splits)

lemma score_rows_Cons:
  "score_rows sim (x # rows) =
     (if sim (fst x) > 0 then (fst x, make_result (sim (fst x)) (snd x)) # score_rows sim rows
      else score_rows sim rows)"
  by (simp add: score_rows_def List.map_filter_def)

lemma score_rows_Nil: "score_rows sim [] = []"
  by (simp add: score_rows_def List.map_filter_def)

lemma score_rows_elem:
  "(i, r) \<in> set (score_rows sim rows) \<longleftrightarrow>
     (\<exists>p. (i, p) \<in> set rows \<and> sim i > 0 \<and> r = make_result (sim i) p)"
proof (induction rows)
  case Nil
  then show ?case by (simp add: score_rows_Nil)
next
  case (Cons x rows)
  then show ?case by (cases x) (auto simp: score_rows_Cons)
qed



text \<open>The shape of a successful search on a built catalog.\<close>

lemma recommendations_shape:
  assumes "recommendations_indexed e (Some s) q sc pr b n = Inr irs"
  shows "\<exists>rows. set rows \<subseteq> set (indexed (products_df s))
           \<and> sorted_wrt (\<lambda>a b. fst a < fst b) rows
           \<and> irs = slice_to n (sort_reverse (\<lambda>ir. r_composite_score (snd ir))
                                 (score_rows (tfidf s (enhanced_query q sc)) rows))"
proof -
  obtain by_price where bp: "filter_price pr (indexed (products_df s)) = Inr by_price"
  proof (cases "filter_price pr (indexed (products_df s))")
    case (Inl err)
    with assms show ?thesis by (simp add: recommendations_indexed_def)
  next
    case (Inr x)
    with that show ?thesis by simp
  qed
  obtain rows where rw: "filter_brand e b by_price = Inr rows"
  proof (cases "filter_brand e b by_price")
    case (Inl err)
    with assms bp show ?thesis by (simp add: recommendations_indexed_def)
  next
    case (Inr x)
    with that show ?thesis by simp
  qed
  have sub: "set rows \<subseteq> set (indexed (products_df s))"
    using filter_price_sub[OF bp] filter_brand_sub[OF rw] by blast
  have srt: "sorted_wrt (\<lambda>a b. fst a < fst b) rows"
    using filter_price_sub[OF bp] filter_brand_sub[OF rw] indexed_sorted by blast
  have "irs = slice_to n (sort_reverse (\<lambda>ir. r_composite_score (snd ir))
                                 (score_rows (tfidf s (enhanced_query q sc)) rows))"
  proof (cases "rows = []")
    case True
    with assms bp rw show ?thesis
      by (simp add: recommendations_indexed_def score_rows_def List.map_filter_def
            sort_reverse_def slice_to_def)
  next
    case False
    with assms bp rw show ?thesis
      by (simp add: recommendations_indexed_def Let_def)
  qed
  with sub srt show ?thesis by blast
qed

lemma recommendations_elem:
  assumes "recommendations_indexed e (Some s) q sc pr b n = Inr irs" and "(i, r) \<in> set irs"
  shows "i < length (products_df s) \<and> tfidf s (enhanced_query q sc) i > 0
         \<and> r = make_result (tfidf s (enhanced_query q sc) i) (products_df s ! i)"
proof -
  obtain rows where rows: "set rows \<subseteq> set (indexed (products_df s))"
    and irs: "irs = slice_to n (sort_reverse (\<lambda>ir. r_composite_score (snd ir))
                                 (score_rows (tfidf s (enhanced_query q sc)) rows))"
    using recommendations_shape[OF assms(1)] by blast
  have "(i, r) \<in> set (sort_reverse (\<lambda>ir. r_composite_score (snd ir))
                                 (score_rows (tfidf s (enhanced_query q sc)) rows))"
  proof -
    have "(i, r) \<in> set (slice_to n (sort_reverse (\<lambda>ir. r_composite_score (snd ir))
                                 (score_rows (tfidf s (enhanced_query q sc)) rows)))"
      using assms(2) by (simp only: irs)
    then show ?thesis by (rule subsetD[OF set_slice_to])
  qed
  then have "(i, r) \<in> set (score_rows (tfidf s (enhanced_query q sc)) rows)"
    by (simp only: set_sort_reverse)
  then obtain p where p: "(i, p) \<in> set rows" and pos: "tfidf s (enhanced_query q sc) i > 0"
    and r: "r = make_result (tfidf s (enhanced_query q sc) i) p"
    unfolding score_rows_elem by blast
  from p rows have "(i, p) \<in> set (indexed (products_df s))" by blast
  then have "i < length (products_df s) \<and> p = products_df s ! i"
    by (simp only: indexed_nth)
  with pos r show ?thesis by simp
qed


section \<open>The sample catalog, evaluated\<close>

lemma ex_products_built:
  "map_option products_df (load_and_preprocess_data ex_env (Some ex_rows) ex_reviews) = Some ex_products"
  by code_simp

lemma ex_build: "load_and_preprocess_data ex_env (Some ex_rows) ex_reviews = Some ex_state"
proof -
  have "\<exists>ps. load_and_preprocess_data ex_env (Some ex_rows) ex_reviews
          = Some \<lparr> products_df = ps, reviews_df = concat ex_reviews, tfidf = ex_sim \<rparr>"
    by (simp add: load_and_preprocess_data_def ex_env_def Let_def ex_reviews_def)
  then obtain ps where ps: "load_and_preprocess_data ex_env (Some ex_rows) ex_reviews
          = Some \<lparr> products_df = ps, reviews_df = concat ex_reviews, tfidf = ex_sim \<rparr>" by blast
  with ex_products_built have "ps = ex_products" by simp
  with ps show ?thesis by (simp add: ex_state_def)
qed

lemma ex_indexed: "indexed ex_products = [(0, ex_p1), (1, ex_p3), (2, ex_p4)]"
  by (simp add: indexed_def ex_products_def upt_rec)

lemma ex_composite:
  "r_composite_score (make_result (1 / 2) ex_p1) = 33 / 50"
  "r_composite_score (make_result (1 / 2) ex_p3) = 33 / 50"
  "r_composite_score (make_result (1 / 2) ex_p4) = 23 / 50"
  by (simp_all add: make_result_def composite_score_def rating_bonus_def review_bonus_def
        sentiment_bonus_def log1p_def ex_p1_def ex_p3_def ex_p4_def)

lemma ex_ranking:
  "sort_reverse (\<lambda>ir. r_composite_score (snd ir))
     (score_rows (ex_sim q) (indexed ex_products))
   = [(0, make_result (1 / 2) ex_p1), (2, make_result (1 / 2) ex_p4)]"
  by (simp add: ex_indexed score_rows_Cons score_rows_Nil ex_sim_def sort_reverse_def ex_composite)


lemma ex_search:
  "recommendations_indexed ex_env (Some ex_state) q [] None None n
   = Inr (slice_to n [(0, make_result (1 / 2) ex_p1), (2, make_result (1 / 2) ex_p4)])"
  by (simp add: recommendations_indexed_def ex_state_def filter_price_def filter_brand_def
        enhanced_query_def ex_ranking) (simp add: ex_indexed)


lemma get_recommendations_indexed:
  "recommendations_indexed e st q sc pr b n = Inr irs \<Longrightarrow>
     get_product_recommendations e st q sc pr b n = Inr (map snd irs)"
  by (simp add: get_product_recommendations_def)

lemma slice_to_map: "slice_to n (map f xs) = map f (slice_to n xs)"
  by (simp add: slice_to_def take_map)

lemma slice_to_Nil: "slice_to n [] = []"
  by (simp add: slice_to_def)

lemma score_rows_length: "length (score_rows sim rows) \<le> length rows"
  by (induction rows) (auto simp: score_rows_Cons score_rows_Nil)

lemma filter_price_length:
  "filter_price pr rows = Inr out \<Longrightarrow> length out \<le> length rows"
  by (auto simp: filter_price_def split: option.splits list.splits)

lemma filter_brand_length:
  "filter_brand e bf rows = Inr out \<Longrightarrow> length out \<le> length rows"
  by (auto simp: filter_brand_def split: option.splits if_splits)

text \<open>A search that succeeds for one \<open>top_n\<close> succeeds for all of them, with slices of the
  same ranked list.\<close>

lemma recommendations_full:
  assumes "get_product_recommendations e st q sc pr b n0 = Inr rs0"
  shows "\<exists>full. length full \<le> catalog_size st
           \<and> (\<forall>n. get_product_recommendations e st q sc pr b n = Inr (slice_to n full))"
proof (cases st)
  case None
  then have "\<forall>n. get_product_recommendations e st q sc pr b n = Inr (slice_to n [])"
    by (simp add: get_product_recommendations_def recommendations_indexed_def slice_to_Nil)
  then show ?thesis by (intro exI[of _ "[]"]) simp
next
  case (Some s)
  obtain by_price where bp: "filter_price pr (indexed (products_df s)) = Inr by_price"
  proof (cases "filter_price pr (indexed (products_df s))")
    case (Inl err)
    with assms Some show ?thesis
      by (simp add: get_product_recommendations_def recommendations_indexed_def)
  next
    case (Inr x)
    with that show ?thesis by simp
  qed
  obtain rows where rw: "filter_brand e b by_price = Inr rows"
  proof (cases "filter_brand e b by_price")
    case (Inl err)
    with assms Some bp show ?thesis
      by (simp add: get_product_recommendations_def recommendations_indexed_def)
  next
    case (Inr x)
    with that show ?thesis by simp
  qed
  let ?X = "sort_reverse (\<lambda>ir. r_composite_score (snd ir))
              (score_rows (tfidf s (enhanced_query q sc)) rows)"
  have len: "length ?X \<le> catalog_size st"
  proof -
    have "length ?X \<le> length rows"
      by (simp add: length_sort_reverse score_rows_length)
    also have "\<dots> \<le> length by_price" using rw by (rule filter_brand_length)
    also have "\<dots> \<le> length (indexed (products_df s))" using bp by (rule filter_price_length)
    finally show ?thesis using Some by (simp add: catalog_size_def indexed_def)
  qed
  have "recommendations_indexed e st q sc pr b n = Inr (slice_to n ?X)" for n
  proof (cases "rows = []")
    case True
    with Some bp rw show ?thesis
      by (simp add: recommendations_indexed_def score_rows_Nil sort_reverse_def slice_to_Nil)
  next
    case False
    with Some bp rw show ?thesis
      by (simp add: recommendations_indexed_def Let_def)
  qed
  then have "\<forall>n. get_product_recommendations e st q sc pr b n = Inr (slice_to n (map snd ?X))"
    by (simp add: get_product_recommendations_def slice_to_map)
  with len show ?thesis by (intro exI[of _ "map snd ?X"]) simp
qed

lemma ex_get:
  "get_product_recommendations ex_env (Some ex_state) q [] None None n
     = Inr (slice_to n [make_result (1 / 2) ex_p1, make_result (1 / 2) ex_p4])"
  using get_recommendations_indexed[OF ex_search, of q n]
  by (simp add: slice_to_map[symmetric])

lemma top_n_length:
  assumes "get_product_recommendations e st q sc pr b n = Inr rs" and "0 \<le> n"
  shows "length rs \<le> nat n"
proof -
  obtain full where "\<And>m. get_product_recommendations e st q sc pr b m = Inr (slice_to m full)"
    using recommendations_full[OF assms(1)] by blast
  from this[of n] assms show ?thesis by (simp add: slice_to_def)
qed

lemma default_limit_length:
  assumes "req_limit data = None" and "fst (search_products e st data) = Ok200 payload"
  shows "length (p_products payload) \<le> 12"
proof (cases "fillna [] (req_query data) = []")
  case True
  with assms(2) show ?thesis by (simp add: search_products_def Let_def)
next
  case False
  show ?thesis
  proof (cases "get_product_recommendations e st (fillna [] (req_query data))
                  (fillna [] (req_skin_concerns data)) (req_price_range data) (req_brand data) 12")
    case (Inl err)
    with False assms show ?thesis by (simp add: search_products_def Let_def fillna_def)
  next
    case (Inr recs)
    from top_n_length[OF Inr] have "length recs \<le> 12" by simp
    with False assms Inr show ?thesis by (auto simp: search_products_def Let_def fillna_def)
  qed
qed

lemma ex_products_ok_built:
  "map_option products_df (load_and_preprocess_data ex_env (Some ex_rows_ok) ex_reviews_ok)
     = Some [ex_q1, ex_p3]"
  by code_simp

lemma ex_build_ok:
  "load_and_preprocess_data ex_env (Some ex_rows_ok) ex_reviews_ok = Some ex_state_ok"
proof -
  have "\<exists>ps. load_and_preprocess_data ex_env (Some ex_rows_ok) ex_reviews_ok
          = Some \<lparr> products_df = ps, reviews_df = concat ex_reviews_ok, tfidf = ex_sim \<rparr>"
    by (simp add: load_and_preprocess_data_def ex_env_def Let_def ex_reviews_ok_def)
  then obtain ps where ps: "load_and_preprocess_data ex_env (Some ex_rows_ok) ex_reviews_ok
          = Some \<lparr> products_df = ps, reviews_df = concat ex_reviews_ok, tfidf = ex_sim \<rparr>"
    by blast
  with ex_products_ok_built have "ps = [ex_q1, ex_p3]" by simp
  with ps show ?thesis by (simp add: ex_state_ok_def)
qed



section \<open>Ratings and review counts after the build\<close>









section \<open>Malformed price ranges\<close>

lemma swapped_price_range_empty:
  assumes "max_price < min_price" and "brand_pattern_ok e brand_filter"
  shows "get_product_recommendations e st q sc (Some [min_price, max_price]) brand_filter n = Inr []"
proof (cases st)
  case None
  then show ?thesis by (simp add: get_product_recommendations_def recommendations_indexed_def)
next
  case (Some s)
  have p: "filter_price (Some [min_price, max_price]) (indexed (products_df s)) = Inr []"
    using assms(1) by (auto simp: filter_price_def filter_empty_conv)
  have b: "filter_brand e brand_filter [] = Inr []"
    using assms(2) by (auto simp: filter_brand_def brand_pattern_ok_def split: option.splits)
  show ?thesis
    using Some by (simp add: get_product_recommendations_def recommendations_indexed_def p b)
qed

lemma one_bound_value_error:
  "get_product_recommendations e (Some s) q sc (Some [bound]) brand_filter n = Inl ValueError"
  by (simp add: get_product_recommendations_def recommendations_indexed_def filter_price_def)

section \<open>The trending list\<close>

lemma trending_products_set:
  "set (trending_products s)
     = {(i, p). i < length (products_df s) \<and> p = products_df s ! i
                \<and> final_rating p \<ge> 4.0 \<and> final_review_count p \<ge> 50}"
  by (auto simp: trending_products_def indexed_nth)

lemma trending_products_sorted: "sorted_wrt (\<lambda>a b. fst a < fst b) (trending_products s)"
  unfolding trending_products_def using indexed_sorted by (rule sorted_wrt_filter)

lemma ex_trending:
  "trending_indexed ex_trending_state
     = [(2, ex_p1\<lparr> final_rating := 5, final_review_count := 50 \<rparr>),
        (3, ex_p4\<lparr> final_rating := 5, final_review_count := 50 \<rparr>),
        (1, ex_p3\<lparr> final_rating := 4, final_review_count := 50 \<rparr>)]"
proof -
  have i: "indexed (products_df ex_trending_state)
     = [(0, ex_p1), (1, ex_p3\<lparr> final_rating := 4, final_review_count := 50 \<rparr>),
        (2, ex_p1\<lparr> final_rating := 5, final_review_count := 50 \<rparr>),
        (3, ex_p4\<lparr> final_rating := 5, final_review_count := 50 \<rparr>)]"
    by (simp add: indexed_def ex_trending_state_def upt_rec)
  have t: "trending_products ex_trending_state
     = [(1, ex_p3\<lparr> final_rating := 4, final_review_count := 50 \<rparr>),
        (2, ex_p1\<lparr> final_rating := 5, final_review_count := 50 \<rparr>),
        (3, ex_p4\<lparr> final_rating := 5, final_review_count := 50 \<rparr>)]"
    unfolding trending_products_def i by (simp add: ex_p1_def)
  have s: "trending_score (ex_p3\<lparr> final_rating := 4, final_review_count := 50 \<rparr>)
             = 21 / 10 + ln 51 * (2 / 5)"
    "trending_score (ex_p1\<lparr> final_rating := 5, final_review_count := 50 \<rparr>)
             = 5 / 2 + ln 51 * (2 / 5)"
    "trending_score (ex_p4\<lparr> final_rating := 5, final_review_count := 50 \<rparr>)
             = 5 / 2 + ln 51 * (2 / 5)"
    by (simp_all add: trending_score_def log1p_def ex_p1_def ex_p3_def ex_p4_def)
  show ?thesis
    unfolding trending_indexed_def t by (simp add: sort_reverse_def s)
qed

section \<open>The claims of the specification\<close>

subsection \<open>C1: the composite score\<close>



subsection \<open>C2: truncation to \<open>top_n\<close>\<close>

text \<open>
  C2 (as amended). For every query and filter combination and every \<open>top_n \<ge> 0\<close> the search
  returns at most \<open>top_n\<close> results, and \<open>top_n = 0\<close> gives the empty list. A negative
  \<open>top_n\<close> is the end of a Python slice: the result is the whole ranked list (the one that
  a \<open>top_n\<close> as large as the catalog gives) without its last \<open>- top_n\<close> records.
  A request that names no limit is answered with at most 12 products.
\<close>

theorem top_n_truncation:
  assumes "get_product_recommendations e st query skin_concerns price_range brand_filter top_n = Inr rs"
  shows "(0 \<le> top_n \<longrightarrow> length rs \<le> nat top_n)
       \<and> (top_n = 0 \<longrightarrow> rs = [])
       \<and> (top_n < 0 \<longrightarrow>
            (\<exists>full. get_product_recommendations e st query skin_concerns price_range brand_filter
                       (int (catalog_size st)) = Inr full
                   \<and> rs = take (length full - nat (- top_n)) full))
       \<and> (req_limit data = None \<and> fst (search_products e st data) = Ok200 payload
            \<longrightarrow> length (p_products payload) \<le> 12)"
proof -
  obtain full where len: "length full \<le> catalog_size st"
    and all: "\<And>n. get_product_recommendations e st query skin_concerns price_range brand_filter n
                = Inr (slice_to n full)"
    using recommendations_full[OF assms] by blast
  have rs: "rs = slice_to top_n full" using assms all[of top_n] by simp
  have whole: "get_product_recommendations e st query skin_concerns price_range brand_filter
                 (int (catalog_size st)) = Inr full"
    using all[of "int (catalog_size st)"] len by (simp add: slice_to_def)
  have 1: "0 \<le> top_n \<longrightarrow> length rs \<le> nat top_n" by (simp add: rs slice_to_def)
  have 2: "top_n = 0 \<longrightarrow> rs = []" by (simp add: rs slice_to_def)
  have 3: "top_n < 0 \<longrightarrow> rs = take (length full - nat (- top_n)) full" by (simp add: rs slice_to_def)
  have 4: "req_limit data = None \<and> fst (search_products e st data) = Ok200 payload
            \<longrightarrow> length (p_products payload) \<le> 12"
    using default_limit_length by blast
  from 1 2 3 4 whole show ?thesis by blast
qed

text \<open>Witness of C2: the sample search with \<open>top_n\<close> 1, 0 and -1, and the sample
  request without a limit.\<close>

theorem top_n_truncation_witness:
  "get_product_recommendations ex_env (Some ex_state) ''hydrating'' [] None None 1
     = Inr [make_result (1 / 2) ex_p1]
   \<and> length [make_result (1 / 2) ex_p1] \<le> nat 1
   \<and> get_product_recommendations ex_env (Some ex_state) ''hydrating'' [] None None 0 = Inr []
   \<and> get_product_recommendations ex_env (Some ex_state) ''hydrating'' [] None None (- 1)
     = Inr [make_result (1 / 2) ex_p1]
   \<and> (\<exists>full. get_product_recommendations ex_env (Some ex_state) ''hydrating'' [] None None
                (int (catalog_size (Some ex_state))) = Inr full
            \<and> [make_result (1 / 2) ex_p1] = take (length full - nat (- (- 1))) full)
   \<and> fst (search_products ex_env (Some ex_state) ex_request_plain)
       = Ok200 \<lparr> p_query = ''hydrating'', p_skin_concerns = [], p_price_range = None,
                 p_brand = None, p_total_results = 2,
                 p_products = [make_result (1 / 2) ex_p1, make_result (1 / 2) ex_p4] \<rparr>
   \<and> length [make_result (1 / 2) ex_p1, make_result (1 / 2) ex_p4] \<le> 12"
proof -
  have a: "get_product_recommendations ex_env (Some ex_state) ''hydrating'' [] None None 1
     = Inr [make_result (1 / 2) ex_p1]" by (simp add: ex_get slice_to_def)
  have b: "get_product_recommendations ex_env (Some ex_state) ''hydrating'' [] None None 0 = Inr []"
    by (simp add: ex_get slice_to_def)
  have c: "get_product_recommendations ex_env (Some ex_state) ''hydrating'' [] None None (- 1)
     = Inr [make_result (1 / 2) ex_p1]" by (simp add: ex_get slice_to_def)
  have d: "fst (search_products ex_env (Some ex_state) ex_request_plain)
       = Ok200 \<lparr> p_query = ''hydrating'', p_skin_concerns = [], p_price_range = None,
                 p_brand = None, p_total_results = 2,
                 p_products = [make_result (1 / 2) ex_p1, make_result (1 / 2) ex_p4] \<rparr>"
    by (simp add: search_products_def ex_request_plain_def fillna_def ex_get slice_to_def)
  have l: "req_limit ex_request_plain = None" by (simp add: ex_request_plain_def)
  have "length [make_result (1 / 2) ex_p1, make_result (1 / 2) ex_p4] \<le> 12"
    using top_n_truncation[OF a, of ex_request_plain] d l by simp
  then show ?thesis
    using top_n_truncation[OF a] top_n_truncation[OF b] top_n_truncation[OF c] a b c d by simp
qed

text \<open>Counterexample to C2 as stated: with \<open>top_n = -1\<close> the sample search returns one
  record, not the empty list.\<close>

theorem negative_top_n_counterexample:
  "get_product_recommendations ex_env (Some ex_state) ''hydrating'' [] None None (- 1)
     = Inr [make_result (1 / 2) ex_p1]"
  by (simp add: ex_get slice_to_def)

subsection \<open>C3: the normalised text of a product\<close>

text \<open>
  C3 (as amended). For every product of the built catalog, \<open>combined_features\<close> contains only
  lowercase letters, digits and spaces, and each cleaned column by itself has single inner
  spaces only. The five cleaned fields are joined with one space each whether or not they
  are empty, so \<open>combined_features\<close> has a run of two or more spaces exactly when the brand,
  the primary category or the secondary category cleans to the empty string.
\<close>

theorem combined_features_normalized:
  assumes "load_and_preprocess_data e (Some rows) review_files = Some s"
    and "p \<in> set (products_df s)"
  shows "(\<forall>c\<in>set (combined_features p). clean_char c)
       \<and> tidy (product_name_clean p) \<and> tidy (brand_name_clean p)
       \<and> tidy (clean_text (Some (primary_category p)))
       \<and> tidy (clean_text (Some (secondary_category p)))
       \<and> tidy (ingredients_clean p)
       \<and> (double_space (combined_features p) \<longleftrightarrow>
            brand_name_clean p = [] \<or> clean_text (Some (primary_category p)) = []
            \<or> clean_text (Some (secondary_category p)) = [])"
proof -
  obtain nr where nr: "product_base.truncate p = preprocess_row nr"
    using product_is_preprocessed[OF assms] by blast
  have f: "combined_features p =
     concat_features (product_name_clean p) (brand_name_clean p)
       (clean_text (Some (primary_category p))) (clean_text (Some (secondary_category p)))
       (ingredients_clean p)"
    and t: "tidy (product_name_clean p)" "tidy (brand_name_clean p)" "tidy (ingredients_clean p)"
    using preprocess_row_features[of nr] unfolding nr[symmetric] truncate_fields by simp_all
  show ?thesis
    unfolding f
    using concat_features_chars[OF t(1) t(2) clean_text_tidy clean_text_tidy t(3)]
      concat_features_double_space[OF t(1) t(2) clean_text_tidy clean_text_tidy t(3)] t
      clean_text_tidy[of "Some (primary_category p)"]
      clean_text_tidy[of "Some (secondary_category p)"]
    by blast
qed

text \<open>Witness of C3: the second product of the sample catalog, whose fields are all
  present.\<close>

theorem combined_features_normalized_witness:
  "load_and_preprocess_data ex_env (Some ex_rows) ex_reviews = Some ex_state
   \<and> ex_p3 \<in> set (products_df ex_state)
   \<and> list_all clean_char (combined_features ex_p3)
   \<and> \<not> double_space (combined_features ex_p3)"
proof -
  have m: "ex_p3 \<in> set (products_df ex_state)" by (simp add: ex_state_def ex_products_def)
  have c: "clean_text (Some (primary_category ex_p3)) \<noteq> []"
     "clean_text (Some (secondary_category ex_p3)) \<noteq> []" "brand_name_clean ex_p3 \<noteq> []"
    by code_simp+
  show ?thesis
    using combined_features_normalized[OF ex_build m] ex_build m c
    unfolding list_all_iff by blast
qed

text \<open>Counterexample to C3 as stated: the first line of the sample file has no secondary
  category, and its \<open>combined_features\<close> has two consecutive spaces.\<close>

theorem combined_features_double_space_counterexample:
  "map_option (\<lambda>s. map combined_features (products_df s))
     (load_and_preprocess_data ex_env (Some ex_rows) ex_reviews)
     = Some [''hydrating serum a skincare  water'',
             ''hydrating cream a skincare moisturizers water glycerin'',
             ''mattifying gel b skincare treatments clay'']
   \<and> double_space ''hydrating serum a skincare  water''"
  by code_simp

subsection \<open>C4: the order of the results\<close>



subsection \<open>C5: candidates without similarity\<close>

text \<open>
  C5. A catalog row whose cosine similarity with the query is 0 (or below) is not in the
  result list, whatever its rating, review count and sentiment.
\<close>

theorem zero_similarity_excluded:
  assumes "recommendations_indexed e (Some s) query skin_concerns price_range brand_filter top_n
             = Inr irs"
    and "tfidf s (enhanced_query query skin_concerns) i \<le> 0"
  shows "get_product_recommendations e (Some s) query skin_concerns price_range brand_filter top_n
           = Inr (map snd irs)
       \<and> i \<notin> fst ` set irs"
proof -
  have "i \<notin> fst ` set irs"
  proof
    assume "i \<in> fst ` set irs"
    then obtain r where "(i, r) \<in> set irs" by auto
    from recommendations_elem[OF assms(1) this] assms(2) show False by simp
  qed
  with get_recommendations_indexed[OF assms(1)] show ?thesis by simp
qed

text \<open>Witness of C5: row 1 of the sample catalog has similarity 0 and is not returned.\<close>

theorem zero_similarity_excluded_witness:
  "recommendations_indexed ex_env (Some ex_state) ''hydrating'' [] None None 12
     = Inr [(0, make_result (1 / 2) ex_p1), (2, make_result (1 / 2) ex_p4)]
   \<and> tfidf ex_state (enhanced_query ''hydrating'' []) 1 \<le> 0
   \<and> 1 \<notin> fst ` set [(0 :: nat, make_result (1 / 2) ex_p1), (2, make_result (1 / 2) ex_p4)]"
proof -
  have a: "recommendations_indexed ex_env (Some ex_state) ''hydrating'' [] None None 12
     = Inr [(0, make_result (1 / 2) ex_p1), (2, make_result (1 / 2) ex_p4)]"
    by (simp add: ex_search slice_to_def)
  have b: "tfidf ex_state (enhanced_query ''hydrating'' []) 1 \<le> 0"
    by (simp add: ex_state_def ex_sim_def)
  show ?thesis using zero_similarity_excluded[OF a b] a b by blast
qed

subsection \<open>C6: malformed price ranges\<close>

text \<open>
  C6 (as amended). The search has no check of the price range and no error of its own for
  it. A request whose price range has its minimum above its maximum is processed like any
  other: no product passes the filter and the answer is a success with an empty product
  list (given a non-empty query and a brand filter that is absent, ignored or a pattern
  that compiles). A request whose price range holds only one bound fails, once the catalog
  is built, when the two bounds are unpacked, and the handler answers with its generic
  error response. In every case the state is what it was.
\<close>

theorem malformed_price_range:
  "snd (search_products e st data) = st
   \<and> (req_query data = Some query \<and> query \<noteq> []
        \<and> req_price_range data = Some [min_price, max_price] \<and> max_price < min_price
        \<and> brand_pattern_ok e (req_brand data)
      \<longrightarrow> (\<exists>payload. fst (search_products e st data) = Ok200 payload
             \<and> p_products payload = [] \<and> p_total_results payload = 0))
   \<and> (req_query data = Some query \<and> query \<noteq> []
        \<and> req_price_range data = Some [bound] \<and> st \<noteq> None
      \<longrightarrow> fst (search_products e st data) = ServerError500 ValueError)"
proof -
  have 1: "snd (search_products e st data) = st"
    by (simp add: search_products_def Let_def split: sum.splits)
  have 2: "req_query data = Some query \<and> query \<noteq> []
        \<and> req_price_range data = Some [min_price, max_price] \<and> max_price < min_price
        \<and> brand_pattern_ok e (req_brand data)
      \<longrightarrow> (\<exists>payload. fst (search_products e st data) = Ok200 payload
             \<and> p_products payload = [] \<and> p_total_results payload = 0)"
    by (simp add: search_products_def Let_def fillna_def swapped_price_range_empty)
  have 3: "req_query data = Some query \<and> query \<noteq> []
        \<and> req_price_range data = Some [bound] \<and> st \<noteq> None
      \<longrightarrow> fst (search_products e st data) = ServerError500 ValueError"
    by (auto simp: search_products_def Let_def fillna_def one_bound_value_error)
  from 1 2 3 show ?thesis by blast
qed

text \<open>Witness of C6: the two sample requests on the sample catalog.\<close>

theorem malformed_price_range_witness:
  "fst (search_products ex_env (Some ex_state) ex_request_swapped)
     = Ok200 \<lparr> p_query = ''hydrating'', p_skin_concerns = [], p_price_range = Some [20, 10],
               p_brand = None, p_total_results = 0, p_products = [] \<rparr>
   \<and> fst (search_products ex_env (Some ex_state) ex_request_one_bound) = ServerError500 ValueError
   \<and> snd (search_products ex_env (Some ex_state) ex_request_swapped) = Some ex_state"
proof -
  have q: "req_query ex_request_swapped = Some ''hydrating'' \<and> ''hydrating'' \<noteq> []
        \<and> req_price_range ex_request_swapped = Some [20, 10] \<and> (10 :: real) < 20
        \<and> brand_pattern_ok ex_env (req_brand ex_request_swapped)"
    by (simp add: ex_request_swapped_def brand_pattern_ok_def)
  have o: "req_query ex_request_one_bound = Some ''hydrating'' \<and> ''hydrating'' \<noteq> []
        \<and> req_price_range ex_request_one_bound = Some [20] \<and> Some ex_state \<noteq> None"
    by (simp add: ex_request_one_bound_def)
  have a: "\<exists>payload. fst (search_products ex_env (Some ex_state) ex_request_swapped) = Ok200 payload
             \<and> p_products payload = [] \<and> p_total_results payload = 0"
    using malformed_price_range[of ex_env "Some ex_state" ex_request_swapped "''hydrating''" 20 10]
      q by blast
  have b: "fst (search_products ex_env (Some ex_state) ex_request_one_bound)
             = ServerError500 ValueError"
    using malformed_price_range[of ex_env "Some ex_state" ex_request_one_bound "''hydrating''" _ _ 20]
      o by blast
  have c: "snd (search_products ex_env (Some ex_state) ex_request_swapped) = Some ex_state"
    using malformed_price_range[of ex_env "Some ex_state" ex_request_swapped] by blast
  have d: "fst (search_products ex_env (Some ex_state) ex_request_swapped)
     = Ok200 \<lparr> p_query = ''hydrating'', p_skin_concerns = [], p_price_range = Some [20, 10],
               p_brand = None, p_total_results = 0, p_products = [] \<rparr>"
    using q by (simp add: search_products_def Let_def fillna_def swapped_price_range_empty
                  ex_request_swapped_def)
  from a b c d show ?thesis by blast
qed

text \<open>Counterexample to C6 as stated: the request with the price range \<open>[20, 10]\<close> is
  answered with a success and an empty list, not rejected.\<close>

theorem swapped_price_range_counterexample:
  "search_products ex_env (Some ex_state) ex_request_swapped
     = (Ok200 \<lparr> p_query = ''hydrating'', p_skin_concerns = [], p_price_range = Some [20, 10],
                p_brand = None, p_total_results = 0, p_products = [] \<rparr>, Some ex_state)"
proof -
  have "brand_pattern_ok ex_env None" by (simp add: brand_pattern_ok_def)
  then show ?thesis
    by (simp add: search_products_def Let_def fillna_def swapped_price_range_empty
          ex_request_swapped_def)
qed

subsection \<open>C7: search before the build\<close>


subsection \<open>C8: products without a name\<close>

text \<open>
  C8. At build time every line of the product file whose name is empty or missing is
  dropped, and nothing else is: an empty name field is one that \<open>read_csv\<close> reads as
  missing, and the catalog holds, in file order and once each, exactly the preprocessed
  lines whose name field is not read as missing (the left merges with the review
  statistics neither drop nor repeat a line).
\<close>

theorem nameless_products_dropped:
  assumes "load_and_preprocess_data e (Some rows) review_files = Some s"
  shows "[] \<in> set na_values
       \<and> map product_base.truncate (products_df s)
           = map (\<lambda>r. preprocess_row (csv_product_name r, r))
               (filter (\<lambda>r. csv_product_name r \<notin> set na_values) rows)
       \<and> map product_name (products_df s)
           = map csv_product_name (filter (\<lambda>r. csv_product_name r \<notin> set na_values) rows)"
proof -
  have e: "[] \<in> set na_values" by (simp add: na_values_def)
  have t: "map product_base.truncate (products_df s)
           = map (\<lambda>r. preprocess_row (csv_product_name r, r))
               (filter (\<lambda>r. csv_product_name r \<notin> set na_values) rows)"
    unfolding base_of_products[OF assms] dropna_product_name_eq by (simp add: comp_def)
  have "map product_name (products_df s)
          = map product_name (map product_base.truncate (products_df s))"
    by (simp add: truncate_fields comp_def)
  also have "\<dots> = map csv_product_name (filter (\<lambda>r. csv_product_name r \<notin> set na_values) rows)"
    unfolding t by (simp add: comp_def preprocess_row_def Let_def)
  finally show ?thesis using e t by blast
qed

text \<open>Witness of C8: the sample file, whose second line has an empty name.\<close>

theorem nameless_products_dropped_witness:
  "load_and_preprocess_data ex_env (Some ex_rows_ok) ex_reviews_ok = Some ex_state_ok
   \<and> map csv_product_name ex_rows_ok = [''Hydrating Serum'', [], ''Hydrating Cream'']
   \<and> map product_name (products_df ex_state_ok)
        = map csv_product_name (filter (\<lambda>r. csv_product_name r \<notin> set na_values) ex_rows_ok)
   \<and> map product_name (products_df ex_state_ok) = [''Hydrating Serum'', ''Hydrating Cream'']"
proof -
  have a: "map csv_product_name ex_rows_ok = [''Hydrating Serum'', [], ''Hydrating Cream'']"
    by (simp add: ex_rows_ok_def ex_rows_def)
  have b: "map product_name (products_df ex_state_ok) = [''Hydrating Serum'', ''Hydrating Cream'']"
    by (simp add: ex_state_ok_def ex_q1_def ex_p3_def)
  show ?thesis using nameless_products_dropped[OF ex_build_ok] ex_build_ok a b by blast
qed

subsection \<open>C9: the trending list\<close>

text \<open>
  C9. The trending operation considers exactly the catalog rows with
  \<open>final_rating \<ge> 4.0\<close> and \<open>final_review_count \<ge> 50\<close>, scores each with
  \<open>0.4 * final_rating + 0.4 * ln (1 + final_review_count) + 0.2 * (avg_sentiment + 1) * 2.5\<close>,
  and returns the first 20 of them in descending order of that score, rows of equal score
  in catalog order.
\<close>

theorem trending_top_20:
  "get_trending (Some s) = Some (map (\<lambda>ip. make_trending (snd ip)) (trending_indexed s))
   \<and> (\<exists>ranked. trending_indexed s = take 20 ranked
         \<and> set ranked = {(i, p). i < length (products_df s) \<and> p = products_df s ! i
                                  \<and> final_rating p \<ge> 4.0 \<and> final_review_count p \<ge> 50}
         \<and> sorted_wrt (ranks_before trending_score) ranked)
   \<and> t_trending_score (make_trending p)
       = 0.4 * final_rating p + 0.4 * ln (1 + final_review_count p)
         + 0.2 * (avg_sentiment p + 1) * 2.5"
proof -
  let ?ranked = "sort_reverse (\<lambda>ip. trending_score (snd ip)) (trending_products s)"
  have 1: "get_trending (Some s) = Some (map (\<lambda>ip. make_trending (snd ip)) (trending_indexed s))"
    by (simp add: get_trending_def)
  have 2: "trending_indexed s = take 20 ?ranked" by (simp add: trending_indexed_def)
  have 3: "set ?ranked = {(i, p). i < length (products_df s) \<and> p = products_df s ! i
                                  \<and> final_rating p \<ge> 4.0 \<and> final_review_count p \<ge> 50}"
    by (simp only: set_sort_reverse trending_products_set)
  have 4: "sorted_wrt (ranks_before trending_score) ?ranked"
    using trending_products_sorted by (rule sort_reverse_ranks)
  have 5: "t_trending_score (make_trending p)
       = 0.4 * final_rating p + 0.4 * ln (1 + final_review_count p)
         + 0.2 * (avg_sentiment p + 1) * 2.5"
    by (simp add: make_trending_def trending_score_def log1p_def)
  from 2 3 4 have "\<exists>ranked. trending_indexed s = take 20 ranked
         \<and> set ranked = {(i, p). i < length (products_df s) \<and> p = products_df s ! i
                                  \<and> final_rating p \<ge> 4.0 \<and> final_review_count p \<ge> 50}
         \<and> sorted_wrt (ranks_before trending_score) ranked" by blast
  with 1 5 show ?thesis by blast
qed

text \<open>Witness of C9: of the four sample rows three pass the thresholds; the two with the
  same score come first, in catalog order.\<close>

theorem trending_top_20_witness:
  "get_trending (Some ex_trending_state)
     = Some [make_trending (ex_p1\<lparr> final_rating := 5, final_review_count := 50 \<rparr>),
             make_trending (ex_p4\<lparr> final_rating := 5, final_review_count := 50 \<rparr>),
             make_trending (ex_p3\<lparr> final_rating := 4, final_review_count := 50 \<rparr>)]"
  using trending_top_20[of ex_trending_state] by (simp add: ex_trending)

subsection \<open>C10: the composite score is at least the similarity\<close>




end
